theory Spec2Isabelle
  imports Complex_Main "HOL-Library.Word"
begin

unbundle bit_operations_syntax

section \<open>OTA firmware handling (ota\_firmware.py)\<close>

text \<open>
  Python byte strings are lists of 8-bit words, Python's unbounded integers are \<open>int\<close>,
  Python strings are \<open>string\<close>. A dictionary is a map; the firmware dictionary with
  its three fixed keys is a record.
\<close>

type_synonym byte = "8 word"

definition FIRMWARE_BLOCK_SIZE :: nat where
  "FIRMWARE_BLOCK_SIZE = 16"

subsection \<open>CRC16 (MODBUS)\<close>

text \<open>
  \<open>compute_crc16\<close> calls the predefined function \<open>modbus\<close> of the crcmod library, which
  is not part of the repository. That function is the reflected CRC-16 with polynomial
  0x8005 (0xA001 once reflected), start value 0xFFFF and no final xor; it is written
  out here bit by bit.
\<close>

fun crc16_shift :: "nat \<Rightarrow> 16 word \<Rightarrow> 16 word" where
  "crc16_shift 0 c = c"
| "crc16_shift (Suc n) c =
     crc16_shift n (if bit c 0 then drop_bit 1 c XOR 0xA001 else drop_bit 1 c)"

definition crc16_update :: "16 word \<Rightarrow> byte \<Rightarrow> 16 word" where
  "crc16_update c b = crc16_shift 8 (c XOR ucast b)"

definition compute_crc16 :: "byte list \<Rightarrow> int" where
  "compute_crc16 data = uint (foldl crc16_update 0xFFFF data)"

text \<open>
  The checksum as the specification names it, CRC16 with the MODBUS polynomial and
  seed, stated apart from the code, on natural numbers: the register starts at
  0xFFFF (65535); each byte is xor-ed into it and the register is shifted right
  eight times, the polynomial \<open>x^16 + x^15 + x^2 + 1\<close> (bit-reversed 0xA001, 40961)
  xor-ed in whenever a one is shifted out.
\<close>

definition modbus_shift :: "nat \<Rightarrow> nat" where
  "modbus_shift r = (if odd r then (r div 2) XOR 40961 else r div 2)"

definition modbus_byte :: "nat \<Rightarrow> nat \<Rightarrow> nat" where
  "modbus_byte r b = (modbus_shift ^^ 8) (r XOR b)"

definition crc16_modbus :: "nat list \<Rightarrow> nat" where
  "crc16_modbus bs = foldl modbus_byte 65535 bs"

subsection \<open>Hex strings and 16-bit words\<close>

text \<open>\<open>binascii.hexlify\<close>: two lower-case hex digits per byte.\<close>

definition hex_digit :: "nat \<Rightarrow> char" where
  "hex_digit n = (if n < 10 then char_of (48 + n) else char_of (87 + n))"

definition hexlify :: "byte list \<Rightarrow> string" where
  "hexlify bs = concat (map (\<lambda>b. [hex_digit (unat b div 16), hex_digit (unat b mod 16)]) bs)"

text \<open>
  \<open>binascii.unhexlify\<close>: digits of either case, an even number of them; anything else
  raises, which is \<open>None\<close> here.
\<close>

definition hex_value :: "char \<Rightarrow> nat option" where
  "hex_value c =
     (let n = (of_char c :: nat) in
      if 48 \<le> n \<and> n \<le> 57 then Some (n - 48)
      else if 97 \<le> n \<and> n \<le> 102 then Some (n - 87)
      else if 65 \<le> n \<and> n \<le> 70 then Some (n - 55)
      else None)"

fun unhexlify :: "string \<Rightarrow> byte list option" where
  "unhexlify [] = Some []"
| "unhexlify [c] = None"
| "unhexlify (a # b # cs) =
     (case hex_value a of
        None \<Rightarrow> None
      | Some h \<Rightarrow>
          (case hex_value b of
             None \<Rightarrow> None
           | Some l \<Rightarrow>
               (case unhexlify cs of
                  None \<Rightarrow> None
                | Some bs \<Rightarrow> Some (of_nat (16 * h + l) # bs))))"

text \<open>
  \<open>struct.unpack("<nH", ...)\<close> reads little-endian unsigned 16-bit words and raises
  unless the buffer holds exactly \<open>2 * n\<close> bytes.
\<close>

fun unpack_words :: "byte list \<Rightarrow> int list" where
  "unpack_words (lo # hi # bs) = (uint lo + 256 * uint hi) # unpack_words bs"
| "unpack_words _ = []"

definition fw_hex_to_int :: "string \<Rightarrow> nat \<Rightarrow> int list option" where
  "fw_hex_to_int hex_str words =
     (case unhexlify hex_str of
        None \<Rightarrow> None
      | Some bs \<Rightarrow> if length bs = 2 * words then Some (unpack_words bs) else None)"

text \<open>
  \<open>struct.pack("<nH", ...)\<close> raises \<open>struct.error\<close> for an argument outside
  0..65535; \<open>fw_int_to_hex\<close> does not catch it, so that is \<open>None\<close> here.
\<close>

definition pack_word :: "int \<Rightarrow> byte list" where
  "pack_word x = [of_int (x mod 256), of_int (x div 256)]"

definition fw_int_to_hex :: "int list \<Rightarrow> string option" where
  "fw_int_to_hex args =
     (if list_all (\<lambda>x. 0 \<le> x \<and> x \<le> 65535) args
      then Some (hexlify (concat (map pack_word args)))
      else None)"

subsection \<open>Preparing a firmware image\<close>

record firmware =
  blocks :: int
  crc :: int
  data :: "byte list"

text \<open>
  The loop appends \<open>128 - len mod 128\<close> bytes 0xFF, a whole page when the length is
  already a multiple of 128. \<open>int(len / 16)\<close> is a float division followed by a
  truncation; the length is a multiple of 16 there, so the quotient is exact.
\<close>

definition prepare_firmware :: "byte list \<Rightarrow> firmware" where
  "prepare_firmware bin_string =
     (let pads = length bin_string mod 128;
          padded = bin_string @ replicate (128 - pads) 0xFF
      in \<lparr> blocks = int (length padded div FIRMWARE_BLOCK_SIZE),
           crc = compute_crc16 padded,
           data = padded \<rparr>)"

subsection \<open>The manager\<close>

type_synonym fw_id = "int \<times> int"

record ota_manager =
  firmware_store :: "fw_id \<rightharpoonup> firmware"
  requested_nodes :: "int \<rightharpoonup> fw_id"
  unstarted_nodes :: "int \<rightharpoonup> fw_id"
  started_nodes :: "int \<rightharpoonup> fw_id"

definition init_manager :: ota_manager where
  "init_manager =
     \<lparr> firmware_store = Map.empty, requested_nodes = Map.empty,
       unstarted_nodes = Map.empty, started_nodes = Map.empty \<rparr>"

text \<open>
  The method \<open>load_firmware\<close> reads the file through the module function of the same
  name (the IntelHex library), which returns the binary string or \<open>None\<close>; that result
  is the argument \<open>fw_bin\<close> here. The callers pass integers for type and version, so
  the \<open>int(...)\<close> conversions at the head of each method cannot raise.
\<close>

definition load_firmware :: "ota_manager \<Rightarrow> int \<Rightarrow> int \<Rightarrow> byte list option \<Rightarrow> ota_manager \<times> bool" where
  "load_firmware m fw_type fw_ver fw_bin =
     (case fw_bin of
        None \<Rightarrow> (m, False)
      | Some bs \<Rightarrow>
          if bs = [] then (m, False)
          else (m\<lparr> firmware_store := (firmware_store m)((fw_type, fw_ver) \<mapsto> prepare_firmware bs) \<rparr>,
                True))"

definition delete_firmware :: "ota_manager \<Rightarrow> int \<Rightarrow> int \<Rightarrow> ota_manager" where
  "delete_firmware m fw_type fw_ver =
     (if firmware_store m (fw_type, fw_ver) \<noteq> None
      then m\<lparr> firmware_store := (firmware_store m)((fw_type, fw_ver) := None) \<rparr>
      else m)"

definition request_update :: "ota_manager \<Rightarrow> int \<Rightarrow> int \<Rightarrow> int \<Rightarrow> ota_manager \<times> bool" where
  "request_update m node_id fw_type fw_ver =
     (if firmware_store m (fw_type, fw_ver) = None then (m, False)
      else (m\<lparr> unstarted_nodes := (unstarted_nodes m)(node_id := None),
                started_nodes := (started_nodes m)(node_id := None),
                requested_nodes := (requested_nodes m)(node_id \<mapsto> (fw_type, fw_ver)) \<rparr>,
            True))"

text \<open>
  A handler returns the response payload, returns \<open>None\<close>, or lets the
  \<open>struct.error\<close> of \<open>fw_int_to_hex\<close> escape (after the state change).
  \<open>a.get(k) or b.get(k)\<close> takes the first map's entry when there is one: a pair is
  never falsy.
\<close>

datatype py_error = StructError

definition get_or :: "(int \<rightharpoonup> fw_id) \<Rightarrow> (int \<rightharpoonup> fw_id) \<Rightarrow> int \<Rightarrow> fw_id option" where
  "get_or a b node_id = (case a node_id of Some fw \<Rightarrow> Some fw | None \<Rightarrow> b node_id)"

definition handle_firmware_config_request ::
  "ota_manager \<Rightarrow> int \<Rightarrow> string \<Rightarrow> ota_manager \<times> (py_error + string option)" where
  "handle_firmware_config_request m node_id payload =
     (case fw_hex_to_int payload 5 of
        None \<Rightarrow> (m, Inr None)
      | Some req \<Rightarrow>
          (case get_or (requested_nodes m) (unstarted_nodes m) node_id of
             None \<Rightarrow> (m, Inr None)
           | Some (fw_type, fw_ver) \<Rightarrow>
               (case firmware_store m (fw_type, fw_ver) of
                  None \<Rightarrow> (m, Inr None)
                | Some fware \<Rightarrow>
                    (m\<lparr> requested_nodes := (requested_nodes m)(node_id := None),
                        unstarted_nodes := (unstarted_nodes m)(node_id \<mapsto> (fw_type, fw_ver)) \<rparr>,
                     case fw_int_to_hex [fw_type, fw_ver, blocks fware, crc fware] of
                       None \<Rightarrow> Inl StructError
                     | Some s \<Rightarrow> Inr (Some s)))))"

text \<open>
  The slice \<open>data[start:end]\<close> is short or empty when it reaches past the end of the
  data, as \<open>take\<close> and \<open>drop\<close> are.
\<close>

definition handle_firmware_request ::
  "ota_manager \<Rightarrow> int \<Rightarrow> string \<Rightarrow> ota_manager \<times> (py_error + string option)" where
  "handle_firmware_request m node_id payload =
     (case fw_hex_to_int payload 3 of
        Some [req_fw_type, req_fw_ver, req_block] \<Rightarrow>
          (case get_or (unstarted_nodes m) (started_nodes m) node_id of
             None \<Rightarrow> (m, Inr None)
           | Some fw_id \<Rightarrow>
               (case firmware_store m (req_fw_type, req_fw_ver) of
                  None \<Rightarrow> (m, Inr None)
                | Some fware \<Rightarrow>
                    (m\<lparr> unstarted_nodes := (unstarted_nodes m)(node_id := None),
                        started_nodes := (started_nodes m)(node_id \<mapsto> (req_fw_type, req_fw_ver)) \<rparr>,
                     let start = nat req_block * FIRMWARE_BLOCK_SIZE;
                         blk_data = take FIRMWARE_BLOCK_SIZE (drop start (data fware))
                     in case fw_int_to_hex [req_fw_type, req_fw_ver, req_block] of
                          None \<Rightarrow> Inl StructError
                        | Some s \<Rightarrow> Inr (Some (s @ hexlify blk_data)))))
      | _ \<Rightarrow> (m, Inr None))"

definition is_reboot_required :: "ota_manager \<Rightarrow> int \<Rightarrow> bool" where
  "is_reboot_required m node_id = (requested_nodes m node_id \<noteq> None)"

definition get_node_status :: "ota_manager \<Rightarrow> int \<Rightarrow> string option" where
  "get_node_status m node_id =
     (if requested_nodes m node_id \<noteq> None then Some ''requested''
      else if unstarted_nodes m node_id \<noteq> None then Some ''unstarted''
      else if started_nodes m node_id \<noteq> None then Some ''started''
      else None)"

text \<open>
  The states the manager can be in: it starts empty and changes only through its
  methods, called with any arguments.
\<close>

inductive reachable :: "ota_manager \<Rightarrow> bool" where
  reach_init: "reachable init_manager"
| reach_load: "reachable m \<Longrightarrow> reachable (fst (load_firmware m fw_type fw_ver fw_bin))"
| reach_delete: "reachable m \<Longrightarrow> reachable (delete_firmware m fw_type fw_ver)"
| reach_request: "reachable m \<Longrightarrow> reachable (fst (request_update m node_id fw_type fw_ver))"
| reach_config:
    "reachable m \<Longrightarrow> reachable (fst (handle_firmware_config_request m node_id payload))"
| reach_block: "reachable m \<Longrightarrow> reachable (fst (handle_firmware_request m node_id payload))"

text \<open>The number of phase maps that hold a node.\<close>

definition phase_count :: "ota_manager \<Rightarrow> int \<Rightarrow> nat" where
  "phase_count m node_id =
     (if requested_nodes m node_id = None then 0 else 1) +
     (if unstarted_nodes m node_id = None then 0 else 1) +
     (if started_nodes m node_id = None then 0 else 1)"

section \<open>Gateway messages (app.py)\<close>

text \<open>
  A line is a \<open>string\<close>, each character a code point below 256 (the socket data is
  decoded as UTF-8; code points beyond 255 are outside this model). \<open>str.strip\<close>
  removes the characters for which \<open>str.isspace\<close> holds; \<open>int\<close> skips a smaller set
  of white space (not the separators 28..31).
\<close>

definition py_isspace :: "char \<Rightarrow> bool" where
  "py_isspace c =
     (let n = (of_char c :: nat) in (9 \<le> n \<and> n \<le> 13) \<or> (28 \<le> n \<and> n \<le> 32) \<or> n = 133 \<or> n = 160)"

definition py_strip :: "string \<Rightarrow> string" where
  "py_strip s = rev (dropWhile py_isspace (rev (dropWhile py_isspace s)))"

definition int_space :: "char \<Rightarrow> bool" where
  "int_space c =
     (let n = (of_char c :: nat) in (9 \<le> n \<and> n \<le> 13) \<or> n = 32 \<or> n = 133 \<or> n = 160)"

definition is_digit :: "char \<Rightarrow> bool" where
  "is_digit c = (48 \<le> (of_char c :: nat) \<and> (of_char c :: nat) \<le> 57)"

text \<open>\<open>digit (["_"] digit)*\<close>, the digits \<open>int\<close> accepts after the sign.\<close>

fun int_body :: "string \<Rightarrow> bool" where
  "int_body [] = False"
| "int_body [c] = is_digit c"
| "int_body (c # d # cs) =
     (is_digit c \<and> (if d = CHR ''_'' then int_body cs else int_body (d # cs)))"

definition digits_value :: "string \<Rightarrow> nat" where
  "digits_value s = foldl (\<lambda>acc c. 10 * acc + (of_char c - 48)) 0 (filter is_digit s)"

text \<open>
  \<open>int(s)\<close> for a string: \<open>None\<close> is the \<open>ValueError\<close>. (CPython from 3.11 on also
  refuses more than 4300 digits unless configured otherwise; that limit is not modelled.)
\<close>

definition py_int :: "string \<Rightarrow> int option" where
  "py_int s =
     (let t = rev (dropWhile int_space (rev (dropWhile int_space s)));
          neg = (t \<noteq> [] \<and> hd t = CHR ''-'');
          body = (if t \<noteq> [] \<and> (hd t = CHR ''-'' \<or> hd t = CHR ''+'') then tl t else t)
      in if int_body body
         then Some (if neg then - int (digits_value body) else int (digits_value body))
         else None)"

text \<open>
  \<open>str(n)\<close>, as the f-strings format an integer (the same limit of 4300 digits is
  not modelled).
\<close>

fun nat_digits :: "nat \<Rightarrow> string" where
  "nat_digits n =
     (if n < 10 then [char_of (48 + n)] else nat_digits (n div 10) @ [char_of (48 + n mod 10)])"

declare nat_digits.simps [simp del]

definition py_str :: "int \<Rightarrow> string" where
  "py_str n = (if n < 0 then CHR ''-'' # nat_digits (nat (- n)) else nat_digits (nat n))"

text \<open>\<open>s.split(sep)\<close> for a one-character separator: every separator splits.\<close>

fun split_on :: "char \<Rightarrow> string \<Rightarrow> string list" where
  "split_on sep [] = [[]]"
| "split_on sep (c # cs) =
     (if c = sep then [] # split_on sep cs
      else (case split_on sep cs of [] \<Rightarrow> [[c]] | p # ps \<Rightarrow> (c # p) # ps))"

text \<open>The local variables \<open>nid, cid, cmd, ack, typ, val\<close> of a decoded line.\<close>

record message =
  msg_nid :: int
  msg_cid :: int
  msg_cmd :: int
  msg_ack :: int
  msg_typ :: int
  msg_val :: string

record gateway_state =
  last_message :: string
  last_time :: real

text \<open>
  What a call of \<open>process_gateway_message\<close> comes to: a return at the empty-line test,
  a return at the duplicate test, the warning and return for fewer than six fields, a
  \<open>SystemExit\<close> raised by the \<open>except Exception\<close> clause (\<open>print\<close>, then
  \<open>sys.exit(1)\<close>), or the decoded fields handed to \<open>add_message\<close>, the queue and the
  handlers (the database and the web interface are outside this model).
\<close>

datatype outcome =
  Empty_line
| Duplicate
| Invalid_format
| System_exit
| Dispatched message

text \<open>Lines 796 to 806: the \<open>ValueError\<close> of \<open>int\<close> is \<open>Inl\<close>.\<close>

datatype decode_error = Too_few_fields | Value_error

definition decode_line :: "string \<Rightarrow> decode_error + message" where
  "decode_line line =
     (let parts = split_on CHR '';'' line in
      if length parts < 6 then Inl Too_few_fields
      else
        (case py_int (parts ! 0) of None \<Rightarrow> Inl Value_error | Some n \<Rightarrow>
        (case py_int (parts ! 1) of None \<Rightarrow> Inl Value_error | Some c \<Rightarrow>
        (case py_int (parts ! 2) of None \<Rightarrow> Inl Value_error | Some k \<Rightarrow>
        (case py_int (parts ! 3) of None \<Rightarrow> Inl Value_error | Some a \<Rightarrow>
        (case py_int (parts ! 4) of None \<Rightarrow> Inl Value_error | Some t \<Rightarrow>
          Inr \<lparr> msg_nid = n, msg_cid = c, msg_cmd = k, msg_ack = a, msg_typ = t,
                msg_val = parts ! 5 \<rparr>))))))"

text \<open>
  What becomes of a line that is past the duplicate test (lines 796 to 867): the
  warning and return, the \<open>ValueError\<close> caught by \<open>except Exception\<close>, where
  \<open>sys.exit(1)\<close> raises \<open>SystemExit\<close>, or the fields handed on.
\<close>

definition decoded :: "string \<Rightarrow> outcome" where
  "decoded line =
     (case decode_line line of
        Inl Too_few_fields \<Rightarrow> Invalid_format
      | Inl Value_error \<Rightarrow> System_exit
      | Inr msg \<Rightarrow> Dispatched msg)"

text \<open>
  The clock reading \<open>time.time()\<close> is the argument \<open>now\<close>, taken as a real number
  (two readings of the same magnitude are subtracted without rounding).
\<close>

definition process_gateway_message ::
  "gateway_state \<Rightarrow> string \<Rightarrow> real \<Rightarrow> gateway_state \<times> outcome" where
  "process_gateway_message st raw now =
     (let line = py_strip raw in
      if line = [] then (st, Empty_line)
      else
        let isnew = (last_message st \<noteq> line \<or> now - last_time st > 1);
            st' = \<lparr> last_message = line, last_time = now \<rparr>
        in if \<not> isnew then (st', Duplicate) else (st', decoded line))"

text \<open>The messages passed on (to \<open>add_message\<close> and the queues) by a call.\<close>

fun emitted :: "outcome \<Rightarrow> message list" where
  "emitted (Dispatched msg) = [msg]"
| "emitted _ = []"

text \<open>
  The inner loop of \<open>gateway_listener\<close>, over the lines taken off the buffer, each
  with the clock reading of its call. \<open>SystemExit\<close> is no \<open>Exception\<close>: neither
  \<open>except\<close> clause of the listener catches it, and the listener is left with the
  remaining lines unread. The result is the state, the outcomes of the lines
  processed, and whether the loop is still running.
\<close>

fun gateway_listener ::
  "gateway_state \<Rightarrow> (string \<times> real) list \<Rightarrow> gateway_state \<times> outcome list \<times> bool" where
  "gateway_listener st [] = (st, [], True)"
| "gateway_listener st ((line, now) # rest) =
     (case process_gateway_message st line now of
        (st', System_exit) \<Rightarrow> (st', [System_exit], False)
      | (st', out) \<Rightarrow>
          (case gateway_listener st' rest of
             (st'', outs, running) \<Rightarrow> (st'', out # outs, running)))"

text \<open>
  The message format of line 1542 (the same f-string builds the stream responses),
  and \<open>send_custom_message\<close> from the converted form fields on: the range checks, then
  the line given to \<open>send_message_to_gateway\<close>; \<open>None\<close> when a check refuses.
\<close>

definition format_message :: "int \<Rightarrow> int \<Rightarrow> int \<Rightarrow> int \<Rightarrow> int \<Rightarrow> string \<Rightarrow> string" where
  "format_message node_id child_id command ack_flag msg_type payload =
     py_str node_id @ '';'' @ py_str child_id @ '';'' @ py_str command @ '';'' @
     py_str ack_flag @ '';'' @ py_str msg_type @ '';'' @ payload"

definition send_custom_message ::
  "int \<Rightarrow> int \<Rightarrow> int \<Rightarrow> int \<Rightarrow> int \<Rightarrow> string \<Rightarrow> string option" where
  "send_custom_message node_id child_id command ack_flag msg_type raw_payload =
     (let payload = py_strip raw_payload in
      if \<not> (0 \<le> node_id \<and> node_id \<le> 255) then None
      else if \<not> (0 \<le> child_id \<and> child_id \<le> 255) then None
      else if \<not> (0 \<le> command \<and> command \<le> 4) then None
      else if \<not> (0 \<le> ack_flag \<and> ack_flag \<le> 1) then None
      else if \<not> (0 \<le> msg_type \<and> msg_type \<le> 255) then None
      else Some (format_message node_id child_id command ack_flag msg_type payload))"

section \<open>Properties of the firmware image\<close>

text \<open>The check value of CRC-16/MODBUS: the digits 1 to 9 in ASCII give 0x4B37.\<close>

lemma crc16_modbus_check:
  "compute_crc16 [0x31, 0x32, 0x33, 0x34, 0x35, 0x36, 0x37, 0x38, 0x39] = 0x4B37"
  by code_simp


subsection \<open>Padding, block count and checksum\<close>

lemma length_prepare_data:
  "length (data (prepare_firmware bs)) = length bs + (128 - length bs mod 128)"
  by (simp add: prepare_firmware_def Let_def)

lemma pad_to_page: "(n + (128 - n mod 128)) = 128 * (n div 128 + 1)" for n :: nat
proof -
  define q r where "q = n div 128" and "r = n mod 128"
  have r: "r < 128" and n: "n = 128 * q + r"
    by (simp_all add: q_def r_def)
  have "n + (128 - r) = 128 * (q + 1)"
    using r n by simp
  then show ?thesis by (simp only: q_def r_def)
qed

lemma prepare_firmware_page: "128 dvd length (data (prepare_firmware bs))"
  by (simp only: length_prepare_data pad_to_page dvd_triv_left)

subsection \<open>The checksum of the code is CRC16 (MODBUS)\<close>

lemma modbus_byte_unfold:
  "modbus_byte r b = modbus_shift (modbus_shift (modbus_shift (modbus_shift
     (modbus_shift (modbus_shift (modbus_shift (modbus_shift (r XOR b))))))))"
  by (simp add: modbus_byte_def eval_nat_numeral)

lemma bit_zero_odd_unat: "bit c 0 \<longleftrightarrow> odd (unat c)" for c :: "16 word"
  by (metis bit_0 even_of_nat mod_by_0 unat_mod word_arith_nat_mod)

lemma unat_drop_bit_one: "unat (drop_bit (Suc 0) c) = unat c div 2" for c :: "16 word"
proof -
  have "unat (drop_bit (Suc 0) c) = drop_bit (Suc 0) (unat c)"
    by (rule unat_drop_bit_eq)
  also have "\<dots> = unat c div 2"
    by (simp add: drop_bit_eq_div)
  finally show ?thesis .
qed

lemma unat_ucast_byte: "unat (ucast (b :: 8 word) :: 16 word) = unat b"
proof -
  have "unat b < 2 ^ LENGTH(8)" by (rule unsigned_less)
  then have "unat b < 2 ^ 16" by simp
  then have "take_bit 16 (unat b) = unat b" by (rule take_bit_nat_eq_self)
  then show ?thesis by (simp add: unsigned_ucast_eq)
qed

lemma unat_step:
  "unat (if bit c 0 then drop_bit 1 c XOR 0xA001 else drop_bit 1 c) = modbus_shift (unat c)"
  for c :: "16 word"
  by (simp add: modbus_shift_def bit_zero_odd_unat unat_drop_bit_one unsigned_xor_eq)

lemma unat_crc16_shift: "unat (crc16_shift n c) = (modbus_shift ^^ n) (unat c)"
proof (induction n arbitrary: c)
  case 0
  show ?case by simp
next
  case (Suc n)
  show ?case
    by (simp only: crc16_shift.simps Suc.IH unat_step funpow_Suc_right o_apply)
qed

lemma unat_crc16_update: "unat (crc16_update c b) = modbus_byte (unat c) (unat b)"
  by (simp add: crc16_update_def modbus_byte_def unat_crc16_shift unsigned_xor_eq unat_ucast_byte)

lemma unat_foldl_crc16:
  "unat (foldl crc16_update c bs) = foldl modbus_byte (unat c) (map unat bs)"
  by (induction bs arbitrary: c) (simp_all add: unat_crc16_update)

lemma unat_seed: "unat (0xFFFF :: 16 word) = 65535"
  by simp

lemma compute_crc16_modbus: "compute_crc16 bs = int (crc16_modbus (map unat bs))"
proof -
  have "uint (foldl crc16_update 0xFFFF bs) = int (unat (foldl crc16_update 0xFFFF bs))"
    by simp
  also have "\<dots> = int (foldl modbus_byte (unat (0xFFFF :: 16 word)) (map unat bs))"
    by (simp only: unat_foldl_crc16)
  finally show ?thesis
    by (simp only: compute_crc16_def crc16_modbus_def unat_seed)
qed

lemma page_of_three:
  "map unat ([1, 2, 3] @ replicate (128 - length [1, 2, 3 :: byte] mod 128) (0xFF :: byte)) =
     [1, 2, 3,
      255, 255, 255, 255, 255, 255, 255, 255, 255, 255, 255, 255, 255, 255, 255, 255,
      255, 255, 255, 255, 255, 255, 255, 255, 255, 255, 255, 255, 255, 255, 255, 255,
      255, 255, 255, 255, 255, 255, 255, 255, 255, 255, 255, 255, 255, 255, 255, 255,
      255, 255, 255, 255, 255, 255, 255, 255, 255, 255, 255, 255, 255, 255, 255, 255,
      255, 255, 255, 255, 255, 255, 255, 255, 255, 255, 255, 255, 255, 255, 255, 255,
      255, 255, 255, 255, 255, 255, 255, 255, 255, 255, 255, 255, 255, 255, 255, 255,
      255, 255, 255, 255, 255, 255, 255, 255, 255, 255, 255, 255, 255, 255, 255, 255,
      255, 255, 255, 255, 255, 255, 255, 255, 255, 255, 255, 255, 255]"
proof -
  have "replicate 125 (0xFF :: byte) =
     [0xFF, 0xFF, 0xFF, 0xFF, 0xFF, 0xFF, 0xFF, 0xFF, 0xFF, 0xFF, 0xFF, 0xFF, 0xFF,
      0xFF, 0xFF, 0xFF, 0xFF, 0xFF, 0xFF, 0xFF, 0xFF, 0xFF, 0xFF, 0xFF, 0xFF, 0xFF,
      0xFF, 0xFF, 0xFF, 0xFF, 0xFF, 0xFF, 0xFF, 0xFF, 0xFF, 0xFF, 0xFF, 0xFF, 0xFF,
      0xFF, 0xFF, 0xFF, 0xFF, 0xFF, 0xFF, 0xFF, 0xFF, 0xFF, 0xFF, 0xFF, 0xFF, 0xFF,
      0xFF, 0xFF, 0xFF, 0xFF, 0xFF, 0xFF, 0xFF, 0xFF, 0xFF, 0xFF, 0xFF, 0xFF, 0xFF,
      0xFF, 0xFF, 0xFF, 0xFF, 0xFF, 0xFF, 0xFF, 0xFF, 0xFF, 0xFF, 0xFF, 0xFF, 0xFF,
      0xFF, 0xFF, 0xFF, 0xFF, 0xFF, 0xFF, 0xFF, 0xFF, 0xFF, 0xFF, 0xFF, 0xFF, 0xFF,
      0xFF, 0xFF, 0xFF, 0xFF, 0xFF, 0xFF, 0xFF, 0xFF, 0xFF, 0xFF, 0xFF, 0xFF, 0xFF,
      0xFF, 0xFF, 0xFF, 0xFF, 0xFF, 0xFF, 0xFF, 0xFF, 0xFF, 0xFF, 0xFF, 0xFF, 0xFF,
      0xFF, 0xFF, 0xFF, 0xFF, 0xFF, 0xFF, 0xFF, 0xFF]"
    by (simp add: numeral_eq_Suc)
  then show ?thesis by simp
qed

lemma crc_page_of_three:
  "crc16_modbus
     [1, 2, 3,
      255, 255, 255, 255, 255, 255, 255, 255, 255, 255, 255, 255, 255, 255, 255, 255,
      255, 255, 255, 255, 255, 255, 255, 255, 255, 255, 255, 255, 255, 255, 255, 255,
      255, 255, 255, 255, 255, 255, 255, 255, 255, 255, 255, 255, 255, 255, 255, 255,
      255, 255, 255, 255, 255, 255, 255, 255, 255, 255, 255, 255, 255, 255, 255, 255,
      255, 255, 255, 255, 255, 255, 255, 255, 255, 255, 255, 255, 255, 255, 255, 255,
      255, 255, 255, 255, 255, 255, 255, 255, 255, 255, 255, 255, 255, 255, 255, 255,
      255, 255, 255, 255, 255, 255, 255, 255, 255, 255, 255, 255, 255, 255, 255, 255,
      255, 255, 255, 255, 255, 255, 255, 255, 255, 255, 255, 255, 255] = 10569"
  by (simp add: crc16_modbus_def modbus_byte_unfold modbus_shift_def)

text \<open>
  C7. Whatever binary string is prepared, the data of the entry is a whole number of
  128-byte pages, \<open>blocks\<close> is the length of the data divided by 16 (exactly), and
  \<open>crc\<close> is what \<open>compute_crc16\<close> returns for the data as padded (the input followed
  by the bytes 0xFF), which is the CRC16 (MODBUS) of that data as the specification
  names it.
\<close>

theorem prepare_firmware_entry:
  "length (data (prepare_firmware bs)) mod 128 = 0 \<and>
   blocks (prepare_firmware bs) = int (length (data (prepare_firmware bs)) div 16) \<and>
   16 * blocks (prepare_firmware bs) = int (length (data (prepare_firmware bs))) \<and>
   crc (prepare_firmware bs) = compute_crc16 (data (prepare_firmware bs)) \<and>
   crc (prepare_firmware bs) = int (crc16_modbus (map unat (data (prepare_firmware bs)))) \<and>
   data (prepare_firmware bs) = bs @ replicate (128 - length bs mod 128) 0xFF"
proof -
  let ?n = "length (data (prepare_firmware bs))"
  have page: "128 dvd ?n" by (rule prepare_firmware_page)
  have "(16::nat) dvd 128" by simp
  then have "16 dvd ?n" using page by (rule dvd_trans)
  then have exact: "16 * (?n div 16) = ?n" by simp
  have b: "blocks (prepare_firmware bs) = int (?n div 16)"
    by (simp add: prepare_firmware_def Let_def FIRMWARE_BLOCK_SIZE_def)
  have "16 * blocks (prepare_firmware bs) = int (16 * (?n div 16))"
    by (simp only: b of_nat_mult of_nat_numeral)
  then have e: "16 * blocks (prepare_firmware bs) = int ?n"
    by (simp only: exact)
  have c: "crc (prepare_firmware bs) = compute_crc16 (data (prepare_firmware bs))"
    by (simp add: prepare_firmware_def Let_def)
  have s: "crc (prepare_firmware bs) = int (crc16_modbus (map unat (data (prepare_firmware bs))))"
    by (simp only: c compute_crc16_modbus)
  have d: "data (prepare_firmware bs) = bs @ replicate (128 - length bs mod 128) 0xFF"
    by (simp add: prepare_firmware_def Let_def)
  from page have p: "?n mod 128 = 0" by (simp only: mod_eq_0_iff_dvd)
  from p b e c s d show ?thesis by blast
qed

theorem prepare_firmware_entry_witness:
  "length (data (prepare_firmware [1, 2, 3])) = 128 \<and>
   blocks (prepare_firmware [1, 2, 3]) = 8 \<and>
   crc (prepare_firmware [1, 2, 3]) = 10569 \<and>
   compute_crc16 [0x31, 0x32, 0x33, 0x34, 0x35, 0x36, 0x37, 0x38, 0x39] = 0x4B37"
proof -
  from prepare_firmware_entry [of "[1, 2, 3]"]
  have l: "blocks (prepare_firmware [1, 2, 3]) = int (length (data (prepare_firmware [1, 2, 3])) div 16)"
    and c: "crc (prepare_firmware [1, 2, 3]) =
      int (crc16_modbus (map unat (data (prepare_firmware [1, 2, 3]))))"
    and d: "data (prepare_firmware [1, 2, 3]) =
      [1, 2, 3] @ replicate (128 - length [1, 2, 3 :: byte] mod 128) 0xFF"
    by blast+
  from d have n: "length (data (prepare_firmware [1, 2, 3])) = 128" by simp
  from c have "crc (prepare_firmware [1, 2, 3]) = 10569"
    by (simp only: d page_of_three crc_page_of_three of_nat_numeral)
  with l n crc16_modbus_check show ?thesis by simp
qed

subsection \<open>Hex strings and words, there and back\<close>

lemma hex_value_hex_digit: "n < 16 \<Longrightarrow> hex_value (hex_digit n) = Some n"
  by (auto simp: hex_value_def hex_digit_def Let_def)

lemma byte_high_nibble: "unat (b :: byte) div 16 < 16"
proof -
  have "unat b < 2 ^ LENGTH(8)" by (rule unsigned_less)
  then show ?thesis by simp
qed

lemma unhexlify_hexlify: "unhexlify (hexlify bs) = Some bs"
  by (induction bs) (simp_all add: hexlify_def hex_value_hex_digit byte_high_nibble)

lemma unpack_pack_word:
  "0 \<le> x \<Longrightarrow> x \<le> 65535 \<Longrightarrow> unpack_words (pack_word x @ bs) = x # unpack_words bs"
  by (simp add: pack_word_def uint_word_of_int take_bit_eq_mod)

lemma unpack_pack_words:
  "list_all (\<lambda>x. 0 \<le> x \<and> x \<le> 65535) ws \<Longrightarrow> unpack_words (concat (map pack_word ws)) = ws"
  by (induction ws) (simp_all add: unpack_pack_word)

lemma length_pack_words: "length (concat (map pack_word ws)) = 2 * length ws"
  by (induction ws) (simp_all add: pack_word_def)

lemma fw_hex_to_int_fw_int_to_hex:
  "fw_int_to_hex ws = Some s \<Longrightarrow> fw_hex_to_int s (length ws) = Some ws"
  by (auto simp: fw_int_to_hex_def fw_hex_to_int_def unhexlify_hexlify length_pack_words
      unpack_pack_words split: if_splits)

lemma unpack_words_range: "list_all (\<lambda>x. 0 \<le> x \<and> x \<le> 65535) (unpack_words bs)"
proof (induction bs rule: unpack_words.induct)
  case (1 lo hi bs)
  have "uint lo < 2 ^ LENGTH(8)" "uint hi < 2 ^ LENGTH(8)"
    by (rule unsigned_less)+
  then have "uint lo + 256 * uint hi \<le> 65535" by simp
  with 1 show ?case by simp
qed simp_all

lemma fw_hex_to_int_range:
  "fw_hex_to_int p n = Some ws \<Longrightarrow> list_all (\<lambda>x. 0 \<le> x \<and> x \<le> 65535) ws"
  by (auto simp: fw_hex_to_int_def unpack_words_range split: option.splits if_splits)

lemma fw_int_to_hex_unpacked:
  "fw_hex_to_int p n = Some ws \<Longrightarrow>
   fw_int_to_hex ws = Some (hexlify (concat (map pack_word ws)))"
  by (simp add: fw_int_to_hex_def fw_hex_to_int_range)


section \<open>Properties of the manager\<close>

subsection \<open>What each method does to the phase maps\<close>

lemma load_firmware_nodes:
  "requested_nodes (fst (load_firmware m t v b)) = requested_nodes m"
  "unstarted_nodes (fst (load_firmware m t v b)) = unstarted_nodes m"
  "started_nodes (fst (load_firmware m t v b)) = started_nodes m"
  by (simp_all add: load_firmware_def split: option.splits)

lemma delete_firmware_nodes:
  "requested_nodes (delete_firmware m t v) = requested_nodes m"
  "unstarted_nodes (delete_firmware m t v) = unstarted_nodes m"
  "started_nodes (delete_firmware m t v) = started_nodes m"
  by (simp_all add: delete_firmware_def)

lemma request_update_cases:
  "fst (request_update m k t v) = m \<or>
   fst (request_update m k t v) =
     m\<lparr> unstarted_nodes := (unstarted_nodes m)(k := None),
        started_nodes := (started_nodes m)(k := None),
        requested_nodes := (requested_nodes m)(k \<mapsto> (t, v)) \<rparr>"
  by (simp add: request_update_def)

lemma config_request_cases:
  "fst (handle_firmware_config_request m k p) = m \<or>
   (\<exists>fw. get_or (requested_nodes m) (unstarted_nodes m) k = Some fw \<and>
      fst (handle_firmware_config_request m k p) =
        m\<lparr> requested_nodes := (requested_nodes m)(k := None),
           unstarted_nodes := (unstarted_nodes m)(k \<mapsto> fw) \<rparr>)"
  by (auto simp: handle_firmware_config_request_def split: option.splits prod.splits)

lemma firmware_request_cases:
  "fst (handle_firmware_request m k p) = m \<or>
   (\<exists>fw fw'. get_or (unstarted_nodes m) (started_nodes m) k = Some fw \<and>
      fst (handle_firmware_request m k p) =
        m\<lparr> unstarted_nodes := (unstarted_nodes m)(k := None),
           started_nodes := (started_nodes m)(k \<mapsto> fw') \<rparr>)"
  by (auto simp: handle_firmware_request_def split: option.splits list.splits)

lemma phase_count_init: "phase_count init_manager n = 0"
  by (simp add: phase_count_def init_manager_def)

lemma phase_count_load: "phase_count (fst (load_firmware m t v b)) n = phase_count m n"
  by (simp add: phase_count_def load_firmware_nodes)

lemma phase_count_delete: "phase_count (delete_firmware m t v) n = phase_count m n"
  by (simp add: phase_count_def delete_firmware_nodes)

lemma phase_count_request:
  assumes "phase_count m n \<le> 1"
  shows "phase_count (fst (request_update m k t v)) n \<le> 1"
proof -
  from request_update_cases [of m k t v] show ?thesis
  proof
    assume "fst (request_update m k t v) = m"
    with assms show ?thesis by simp
  next
    assume u: "fst (request_update m k t v) =
      m\<lparr> unstarted_nodes := (unstarted_nodes m)(k := None),
         started_nodes := (started_nodes m)(k := None),
         requested_nodes := (requested_nodes m)(k \<mapsto> (t, v)) \<rparr>"
    show ?thesis
    proof (cases "n = k")
      case True
      then show ?thesis by (simp add: u phase_count_def)
    next
      case False
      with assms show ?thesis by (simp add: u phase_count_def)
    qed
  qed
qed

lemma phase_count_config:
  assumes "phase_count m n \<le> 1"
  shows "phase_count (fst (handle_firmware_config_request m k p)) n \<le> 1"
proof -
  from config_request_cases [of m k p] show ?thesis
  proof (elim disjE exE conjE)
    assume "fst (handle_firmware_config_request m k p) = m"
    with assms show ?thesis by simp
  next
    fix fw
    assume g: "get_or (requested_nodes m) (unstarted_nodes m) k = Some fw"
      and u: "fst (handle_firmware_config_request m k p) =
        m\<lparr> requested_nodes := (requested_nodes m)(k := None),
           unstarted_nodes := (unstarted_nodes m)(k \<mapsto> fw) \<rparr>"
    show ?thesis
    proof (cases "n = k")
      case True
      with assms g show ?thesis
        by (auto simp: u phase_count_def get_or_def split: option.splits if_splits)
    next
      case False
      with assms show ?thesis by (simp add: u phase_count_def)
    qed
  qed
qed

lemma phase_count_block:
  assumes "phase_count m n \<le> 1"
  shows "phase_count (fst (handle_firmware_request m k p)) n \<le> 1"
proof -
  from firmware_request_cases [of m k p] show ?thesis
  proof (elim disjE exE conjE)
    assume "fst (handle_firmware_request m k p) = m"
    with assms show ?thesis by simp
  next
    fix fw fw'
    assume g: "get_or (unstarted_nodes m) (started_nodes m) k = Some fw"
      and u: "fst (handle_firmware_request m k p) =
        m\<lparr> unstarted_nodes := (unstarted_nodes m)(k := None),
           started_nodes := (started_nodes m)(k \<mapsto> fw') \<rparr>"
    show ?thesis
    proof (cases "n = k")
      case True
      with assms g show ?thesis
        by (auto simp: u phase_count_def get_or_def split: option.splits if_splits)
    next
      case False
      with assms show ?thesis by (simp add: u phase_count_def)
    qed
  qed
qed

lemma demo_unstarted:
  "fst (handle_firmware_config_request
      (fst (request_update (fst (load_firmware
         (fst (load_firmware init_manager 4 1 (Some [1, 2, 3]))) 3 2 (Some [9]))) 7 3 2))
      7 ''00000000000000000000'')
   = \<lparr> firmware_store = [(4, 1) \<mapsto> prepare_firmware [1, 2, 3], (3, 2) \<mapsto> prepare_firmware [9]],
       requested_nodes = Map.empty,
       unstarted_nodes = [7 \<mapsto> (3, 2)],
       started_nodes = Map.empty \<rparr>"
  by (simp add: load_firmware_def request_update_def handle_firmware_config_request_def
      fw_hex_to_int_def hex_value_def get_or_def init_manager_def)

subsection \<open>Deleting a firmware\<close>

text \<open>
  C10. Deleting a firmware leaves the three phase maps as they were, for every node
  (so each node's phase and stored target are unchanged, also when the target is the
  firmware deleted), and changes the catalog at the deleted id only.
\<close>

theorem delete_firmware_frame:
  "requested_nodes (delete_firmware m fw_type fw_ver) = requested_nodes m \<and>
   unstarted_nodes (delete_firmware m fw_type fw_ver) = unstarted_nodes m \<and>
   started_nodes (delete_firmware m fw_type fw_ver) = started_nodes m \<and>
   get_node_status (delete_firmware m fw_type fw_ver) node_id = get_node_status m node_id \<and>
   firmware_store (delete_firmware m fw_type fw_ver) (fw_type, fw_ver) = None \<and>
   (\<forall>k. k \<noteq> (fw_type, fw_ver) \<longrightarrow>
        firmware_store (delete_firmware m fw_type fw_ver) k = firmware_store m k)"
  by (simp add: delete_firmware_def get_node_status_def)

theorem delete_firmware_frame_witness:
  "(4, 1) \<noteq> (3, 2 :: int) \<and>
   firmware_store (delete_firmware (fst (request_update (fst (load_firmware
       (fst (load_firmware init_manager 4 1 (Some [1, 2, 3]))) 3 2 (Some [0]))) 7 3 2)) 3 2) (4, 1)
     = Some (prepare_firmware [1, 2, 3]) \<and>
   requested_nodes (delete_firmware (fst (request_update (fst (load_firmware
       (fst (load_firmware init_manager 4 1 (Some [1, 2, 3]))) 3 2 (Some [0]))) 7 3 2)) 3 2) 7
     = Some (3, 2)"
  using delete_firmware_frame [of "fst (request_update (fst (load_firmware
       (fst (load_firmware init_manager 4 1 (Some [1, 2, 3]))) 3 2 (Some [0]))) 7 3 2)" 3 2 7]
  by (simp add: request_update_def load_firmware_def init_manager_def)

subsection \<open>One phase per node\<close>

text \<open>
  C6. In every state reachable from the empty manager by loading and deleting
  firmware, requesting updates and handling config and block requests, with any
  arguments, a node is in at most one of the three phase maps.
\<close>

theorem one_phase_per_node: "reachable m \<Longrightarrow> phase_count m node_id \<le> 1"
proof (induction rule: reachable.induct)
  case reach_init
  show ?case by (simp add: phase_count_init)
next
  case (reach_load m fw_type fw_ver fw_bin)
  from reach_load.IH show ?case by (simp only: phase_count_load)
next
  case (reach_delete m fw_type fw_ver)
  from reach_delete.IH show ?case by (simp only: phase_count_delete)
next
  case (reach_request m k fw_type fw_ver)
  from reach_request.IH show ?case by (rule phase_count_request)
next
  case (reach_config m k payload)
  from reach_config.IH show ?case by (rule phase_count_config)
next
  case (reach_block m k payload)
  from reach_block.IH show ?case by (rule phase_count_block)
qed

theorem one_phase_per_node_witness:
  "reachable (fst (request_update (fst (load_firmware init_manager 3 2 (Some [0]))) 7 3 2)) \<and>
   phase_count (fst (request_update (fst (load_firmware init_manager 3 2 (Some [0]))) 7 3 2)) 7 \<le> 1"
proof -
  have r: "reachable (fst (request_update (fst (load_firmware init_manager 3 2 (Some [0]))) 7 3 2))"
    by (intro reach_request reach_load reach_init)
  from r one_phase_per_node [OF r] show ?thesis by blast
qed

subsection \<open>Block requests\<close>

text \<open>
  C9. A node in the unstarted or the started map sends a block request that decodes
  to the words (type, version, block), and the catalog holds that type and version.
  Then the firmware served is the one the node declared, whatever target the maps
  hold for the node: the response is the three words packed and hex-encoded (they
  decode back to the same words), followed by the hex of the 16 bytes of the data
  from \<open>16 * block\<close> on (fewer when the data ends), and the node is moved to the
  started map under the declared id.
\<close>

theorem block_request_uses_declared_firmware:
  assumes phase: "unstarted_nodes m node_id \<noteq> None \<or> started_nodes m node_id \<noteq> None"
    and req: "fw_hex_to_int payload 3 = Some [req_fw_type, req_fw_ver, req_block]"
    and cat: "firmware_store m (req_fw_type, req_fw_ver) = Some fware"
  shows "\<exists>header.
           fw_int_to_hex [req_fw_type, req_fw_ver, req_block] = Some header \<and>
           fw_hex_to_int header 3 = Some [req_fw_type, req_fw_ver, req_block] \<and>
           snd (handle_firmware_request m node_id payload) =
             Inr (Some (header @ hexlify (take 16 (drop (nat req_block * 16) (data fware))))) \<and>
           started_nodes (fst (handle_firmware_request m node_id payload)) node_id =
             Some (req_fw_type, req_fw_ver) \<and>
           unstarted_nodes (fst (handle_firmware_request m node_id payload)) node_id = None"
proof -
  let ?ws = "[req_fw_type, req_fw_ver, req_block]"
  let ?header = "hexlify (concat (map pack_word ?ws))"
  have h: "fw_int_to_hex ?ws = Some ?header"
    using req by (rule fw_int_to_hex_unpacked)
  from h have rt: "fw_hex_to_int ?header (length ?ws) = Some ?ws"
    by (rule fw_hex_to_int_fw_int_to_hex)
  from phase have "get_or (unstarted_nodes m) (started_nodes m) node_id \<noteq> None"
    by (auto simp: get_or_def split: option.splits)
  then obtain fw where g: "get_or (unstarted_nodes m) (started_nodes m) node_id = Some fw"
    by blast
  have r: "handle_firmware_request m node_id payload =
      (m\<lparr> unstarted_nodes := (unstarted_nodes m)(node_id := None),
          started_nodes := (started_nodes m)(node_id \<mapsto> (req_fw_type, req_fw_ver)) \<rparr>,
       Inr (Some (?header @ hexlify (take 16 (drop (nat req_block * 16) (data fware))))))"
    by (simp add: handle_firmware_request_def req g cat h FIRMWARE_BLOCK_SIZE_def Let_def)
  have l: "length ?ws = 3" by simp
  from rt have rt3: "fw_hex_to_int ?header 3 = Some ?ws" by (simp only: l)
  from h rt3 show ?thesis by (simp add: r)
qed

theorem block_request_uses_declared_firmware_witness:
  "unstarted_nodes (fst (handle_firmware_config_request
      (fst (request_update (fst (load_firmware
         (fst (load_firmware init_manager 4 1 (Some [1, 2, 3]))) 3 2 (Some [9]))) 7 3 2))
      7 ''00000000000000000000'')) 7 = Some (3, 2) \<and>
   fw_hex_to_int ''040001000000'' 3 = Some [4, 1, 0] \<and>
   snd (handle_firmware_request (fst (handle_firmware_config_request
      (fst (request_update (fst (load_firmware
         (fst (load_firmware init_manager 4 1 (Some [1, 2, 3]))) 3 2 (Some [9]))) 7 3 2))
      7 ''00000000000000000000'')) 7 ''040001000000'')
     = Inr (Some ''040001000000010203ffffffffffffffffffffffffff'')"
proof -
  let ?m = "fst (handle_firmware_config_request
      (fst (request_update (fst (load_firmware
         (fst (load_firmware init_manager 4 1 (Some [1, 2, 3]))) 3 2 (Some [9]))) 7 3 2))
      7 ''00000000000000000000'')"
  have u: "unstarted_nodes ?m 7 = Some (3, 2)"
    by (simp add: demo_unstarted)
  then have a: "unstarted_nodes ?m 7 \<noteq> None \<or> started_nodes ?m 7 \<noteq> None"
    by simp
  have b: "fw_hex_to_int ''040001000000'' 3 = Some [4, 1, 0]"
    by (simp add: fw_hex_to_int_def hex_value_def)
  have c: "firmware_store ?m (4, 1) = Some (prepare_firmware [1, 2, 3])"
    by (simp add: demo_unstarted)
  have h: "fw_int_to_hex [4, 1, 0] = Some ''040001000000''"
    by (simp add: fw_int_to_hex_def hexlify_def pack_word_def hex_digit_def char_of_def bit_0)
  have d: "hexlify (take 16 (drop (nat 0 * 16) (data (prepare_firmware [1, 2, 3]))))
      = ''010203ffffffffffffffffffffffffff''"
  proof -
    have "take 16 (drop (nat 0 * 16) (data (prepare_firmware [1, 2, 3])))
        = [1, 2, 3] @ replicate 13 0xFF"
      by (simp add: prepare_firmware_def Let_def)
    moreover have "replicate 13 (0xFF :: byte) =
        [0xFF, 0xFF, 0xFF, 0xFF, 0xFF, 0xFF, 0xFF, 0xFF, 0xFF, 0xFF, 0xFF, 0xFF, 0xFF]"
      by (simp add: numeral_eq_Suc)
    ultimately show ?thesis
      by (simp add: hexlify_def hex_digit_def char_of_def bit_0)
  qed
  from block_request_uses_declared_firmware [OF a b c] h d
  have "snd (handle_firmware_request ?m 7 ''040001000000'')
     = Inr (Some ''040001000000010203ffffffffffffffffffffffffff'')"
    by simp
  with u b show ?thesis by blast
qed

subsection \<open>Config requests\<close>

text \<open>
  C5, as the code has it. After a successful \<open>request_update\<close> the node is in the
  requested map; a config request whose payload decodes as five 16-bit words then
  moves it to the unstarted map under the same target and out of the requested map.
  The payload's words are not looked at, but a payload that does not decode leaves
  the node where it was (see the counterexample).
\<close>

theorem config_request_leaves_requested:
  assumes cat: "firmware_store m (fw_type, fw_ver) \<noteq> None"
    and pay: "fw_hex_to_int payload 5 \<noteq> None"
  shows "snd (request_update m node_id fw_type fw_ver) \<and>
         get_node_status (fst (request_update m node_id fw_type fw_ver)) node_id = Some ''requested'' \<and>
         requested_nodes (fst (handle_firmware_config_request
            (fst (request_update m node_id fw_type fw_ver)) node_id payload)) node_id = None \<and>
         unstarted_nodes (fst (handle_firmware_config_request
            (fst (request_update m node_id fw_type fw_ver)) node_id payload)) node_id
           = Some (fw_type, fw_ver) \<and>
         get_node_status (fst (handle_firmware_config_request
            (fst (request_update m node_id fw_type fw_ver)) node_id payload)) node_id
           = Some ''unstarted''"
proof -
  from cat obtain fware where f: "firmware_store m (fw_type, fw_ver) = Some fware" by auto
  from pay obtain req where p: "fw_hex_to_int payload 5 = Some req" by auto
  show ?thesis
    by (simp add: request_update_def handle_firmware_config_request_def get_or_def
        get_node_status_def f p)
qed

theorem config_request_leaves_requested_witness:
  "firmware_store (fst (load_firmware init_manager 3 2 (Some [0]))) (3, 2) \<noteq> None \<and>
   fw_hex_to_int ''00000000000000000000'' 5 \<noteq> None \<and>
   get_node_status (fst (handle_firmware_config_request
      (fst (request_update (fst (load_firmware init_manager 3 2 (Some [0]))) 7 3 2))
      7 ''00000000000000000000'')) 7 = Some ''unstarted''"
proof -
  have a: "firmware_store (fst (load_firmware init_manager 3 2 (Some [0]))) (3, 2) \<noteq> None"
    by (simp add: load_firmware_def)
  have b: "fw_hex_to_int ''00000000000000000000'' 5 \<noteq> None"
    by (simp add: fw_hex_to_int_def hex_value_def)
  from a b config_request_leaves_requested [OF a b, of 7] show ?thesis by blast
qed

text \<open>
  C5 as stated fails: with a payload of four bytes the handler returns at its
  \<open>except\<close> clause and the node stays in the requested map.
\<close>

theorem config_request_bad_payload_counterexample:
  "snd (request_update (fst (load_firmware init_manager 3 2 (Some [0]))) 7 3 2) \<and>
   get_node_status (fst (handle_firmware_config_request
      (fst (request_update (fst (load_firmware init_manager 3 2 (Some [0]))) 7 3 2))
      7 ''03000200'')) 7 = Some ''requested''"
  by (simp add: load_firmware_def request_update_def handle_firmware_config_request_def
      fw_hex_to_int_def hex_value_def get_node_status_def)

subsection \<open>A target missing from the catalog\<close>

text \<open>
  C3, as the code has it. When the target of a config request (the node's entry in
  the requested or else the unstarted map) is not in the catalog, and when the
  firmware a block request declares is not in the catalog, the handler returns no
  response and leaves the manager as it was: the node does not change phase.
\<close>

theorem missing_firmware_keeps_state:
  "(get_or (requested_nodes m) (unstarted_nodes m) node_id = Some fw \<and> firmware_store m fw = None
      \<longrightarrow> handle_firmware_config_request m node_id payload = (m, Inr None)) \<and>
   (fw_hex_to_int block_payload 3 = Some [req_fw_type, req_fw_ver, req_block] \<and>
    firmware_store m (req_fw_type, req_fw_ver) = None
      \<longrightarrow> handle_firmware_request m node_id block_payload = (m, Inr None))"
  by (auto simp: handle_firmware_config_request_def handle_firmware_request_def
      split: option.splits prod.splits list.splits)

theorem missing_firmware_keeps_state_witness:
  "get_or (requested_nodes (delete_firmware (fst (handle_firmware_config_request
      (fst (request_update (fst (load_firmware
         (fst (load_firmware init_manager 4 1 (Some [1, 2, 3]))) 3 2 (Some [9]))) 7 3 2))
      7 ''00000000000000000000'')) 3 2))
     (unstarted_nodes (delete_firmware (fst (handle_firmware_config_request
      (fst (request_update (fst (load_firmware
         (fst (load_firmware init_manager 4 1 (Some [1, 2, 3]))) 3 2 (Some [9]))) 7 3 2))
      7 ''00000000000000000000'')) 3 2)) 7 = Some (3, 2) \<and>
   fw_hex_to_int ''030002000000'' 3 = Some [3, 2, 0] \<and>
   get_node_status (fst (handle_firmware_config_request (delete_firmware (fst (handle_firmware_config_request
      (fst (request_update (fst (load_firmware
         (fst (load_firmware init_manager 4 1 (Some [1, 2, 3]))) 3 2 (Some [9]))) 7 3 2))
      7 ''00000000000000000000'')) 3 2) 7 ''00000000000000000000'')) 7 = Some ''unstarted'' \<and>
   get_node_status (fst (handle_firmware_request (delete_firmware (fst (handle_firmware_config_request
      (fst (request_update (fst (load_firmware
         (fst (load_firmware init_manager 4 1 (Some [1, 2, 3]))) 3 2 (Some [9]))) 7 3 2))
      7 ''00000000000000000000'')) 3 2) 7 ''030002000000'')) 7 = Some ''unstarted''"
proof -
  let ?m = "delete_firmware (fst (handle_firmware_config_request
      (fst (request_update (fst (load_firmware
         (fst (load_firmware init_manager 4 1 (Some [1, 2, 3]))) 3 2 (Some [9]))) 7 3 2))
      7 ''00000000000000000000'')) 3 2"
  have m: "?m = \<lparr> firmware_store = [(4, 1) \<mapsto> prepare_firmware [1, 2, 3]],
       requested_nodes = Map.empty,
       unstarted_nodes = [7 \<mapsto> (3, 2)],
       started_nodes = Map.empty \<rparr>"
    by (simp add: demo_unstarted delete_firmware_def fun_upd_twist)
  have a: "get_or (requested_nodes ?m) (unstarted_nodes ?m) 7 = Some (3, 2)"
    by (simp add: m get_or_def)
  have s: "firmware_store ?m (3, 2) = None"
    by (simp add: m)
  have b: "fw_hex_to_int ''030002000000'' 3 = Some [3, 2, 0]"
    by (simp add: fw_hex_to_int_def hex_value_def)
  have g: "get_node_status ?m 7 = Some ''unstarted''"
    by (simp add: m get_node_status_def)
  from missing_firmware_keeps_state
    [of ?m 7 "(3, 2)" "''00000000000000000000''" "''030002000000''" 3 2 0] a s b
  have "handle_firmware_config_request ?m 7 ''00000000000000000000'' = (?m, Inr None)"
    and "handle_firmware_request ?m 7 ''030002000000'' = (?m, Inr None)"
    by blast+
  with a b g show ?thesis by simp
qed

text \<open>
  C3 as stated fails: firmware (3, 2) is loaded, node 7 is scheduled for it, the
  firmware is deleted; the config request of node 7 then leaves it in the requested
  map instead of moving it to the unstarted map.
\<close>

theorem missing_firmware_counterexample:
  "get_node_status (delete_firmware
      (fst (request_update (fst (load_firmware init_manager 3 2 (Some [0]))) 7 3 2)) 3 2) 7
     = Some ''requested'' \<and>
   fw_hex_to_int ''00000000000000000000'' 5 \<noteq> None \<and>
   get_node_status (fst (handle_firmware_config_request (delete_firmware
      (fst (request_update (fst (load_firmware init_manager 3 2 (Some [0]))) 7 3 2)) 3 2)
      7 ''00000000000000000000'')) 7 = Some ''requested''"
  by (simp add: load_firmware_def request_update_def delete_firmware_def
      handle_firmware_config_request_def fw_hex_to_int_def hex_value_def get_node_status_def
      get_or_def init_manager_def)

subsection \<open>Scenario A\<close>




section \<open>Properties of the gateway messages\<close>

subsection \<open>Integers as text\<close>

lemma is_digit_char_of: "d < 10 \<Longrightarrow> is_digit (char_of (48 + d :: nat))"
  by (simp add: is_digit_def)

lemma of_char_digit: "d < 10 \<Longrightarrow> (of_char (char_of (48 + d :: nat)) :: nat) = 48 + d"
  by simp

lemma nat_digits_digits: "c \<in> set (nat_digits n) \<Longrightarrow> is_digit c"
proof (induction n rule: nat_digits.induct)
  case (1 n)
  show ?case
  proof (cases "n < 10")
    case True
    with "1.prems" show ?thesis
      by (simp add: nat_digits.simps [of n] is_digit_char_of)
  next
    case False
    have "is_digit (char_of (48 + n mod 10))" by (rule is_digit_char_of) simp
    with False "1.prems" "1.IH" show ?thesis
      by (auto simp: nat_digits.simps [of n])
  qed
qed

lemma nat_digits_nonempty: "nat_digits n \<noteq> []"
  by (simp add: nat_digits.simps [of n])

lemma filter_digits: "(\<And>c. c \<in> set s \<Longrightarrow> is_digit c) \<Longrightarrow> filter is_digit s = s"
  by (induction s) auto

lemma digits_value_nat_digits: "digits_value (nat_digits n) = n"
proof (induction n rule: nat_digits.induct)
  case (1 n)
  have f: "filter is_digit (nat_digits k) = nat_digits k" for k
    by (rule filter_digits) (rule nat_digits_digits)
  show ?case
  proof (cases "n < 10")
    case True
    then show ?thesis
      by (simp add: digits_value_def nat_digits.simps [of n] is_digit_char_of)
  next
    case False
    have d: "is_digit (char_of (48 + n mod 10))" by (rule is_digit_char_of) simp
    from False "1.IH" have ih: "digits_value (nat_digits (n div 10)) = n div 10" by simp
    have "digits_value (nat_digits n) =
        10 * digits_value (nat_digits (n div 10)) + n mod 10"
      using False d by (simp add: digits_value_def nat_digits.simps [of n] f)
    with ih show ?thesis by simp
  qed
qed

lemma int_body_digits: "s \<noteq> [] \<Longrightarrow> (\<And>c. c \<in> set s \<Longrightarrow> is_digit c) \<Longrightarrow> int_body s"
proof (induction s rule: int_body.induct)
  case (3 c d cs)
  have "is_digit d" using 3 by simp
  then have "d \<noteq> CHR ''_''" by (auto simp: is_digit_def)
  with 3 show ?case by simp
qed simp_all


lemma strip_id:
  assumes "s \<noteq> []" "\<not> P (hd s)" "\<not> P (last s)"
  shows "rev (dropWhile P (rev (dropWhile P s))) = s"
proof -
  from assms(1,2) have a: "dropWhile P s = s"
    by (cases s) simp_all
  from assms(1,3) have b: "dropWhile P (rev s) = rev s"
    by (cases "rev s") (simp_all add: last_rev [symmetric])
  show ?thesis by (simp add: a b)
qed

lemma digit_not_space: "is_digit c \<Longrightarrow> \<not> int_space c \<and> \<not> py_isspace c"
  by (auto simp: is_digit_def int_space_def py_isspace_def Let_def)

lemma digit_not_sign: "is_digit c \<Longrightarrow> c \<noteq> CHR ''-'' \<and> c \<noteq> CHR ''+'' \<and> c \<noteq> CHR '';''"
  by (auto simp: is_digit_def)

lemma py_int_digits:
  assumes ne: "ds \<noteq> []" and dg: "\<And>c. c \<in> set ds \<Longrightarrow> is_digit c"
  shows "py_int ds = Some (int (digits_value ds))"
    and "py_int (CHR ''-'' # ds) = Some (- int (digits_value ds))"
proof -
  from ne dg have h: "is_digit (hd ds)" and l: "is_digit (last ds)"
    by simp_all
  have body: "int_body ds" using ne dg by (rule int_body_digits)
  have s1: "rev (dropWhile int_space (rev (dropWhile int_space ds))) = ds"
    using ne h l by (intro strip_id) (simp_all add: digit_not_space)
  from h have sg: "hd ds \<noteq> CHR ''-''" "hd ds \<noteq> CHR ''+''"
    by (simp_all add: digit_not_sign)
  show "py_int ds = Some (int (digits_value ds))"
    unfolding py_int_def s1 using ne sg body by (simp add: Let_def)
  have m: "\<not> int_space CHR ''-''" by (simp add: int_space_def)
  have s2: "rev (dropWhile int_space (rev (dropWhile int_space (CHR ''-'' # ds)))) = CHR ''-'' # ds"
    using ne l m by (intro strip_id) (simp_all add: digit_not_space)
  show "py_int (CHR ''-'' # ds) = Some (- int (digits_value ds))"
    unfolding py_int_def s2 using body by (simp add: Let_def)
qed

lemma py_int_py_str: "py_int (py_str n) = Some n"
proof (cases "n < 0")
  case True
  have "py_int (CHR ''-'' # nat_digits (nat (- n))) = Some (- int (digits_value (nat_digits (nat (- n)))))"
    by (rule py_int_digits(2)) (simp_all add: nat_digits_nonempty nat_digits_digits)
  with True show ?thesis by (simp add: py_str_def digits_value_nat_digits)
next
  case False
  have "py_int (nat_digits (nat n)) = Some (int (digits_value (nat_digits (nat n))))"
    by (rule py_int_digits(1)) (simp_all add: nat_digits_nonempty nat_digits_digits)
  with False show ?thesis by (simp add: py_str_def digits_value_nat_digits)
qed

lemma py_str_chars: "CHR '';'' \<notin> set (py_str n)"
proof -
  have "CHR '';'' \<notin> set (nat_digits k)" for k
    using nat_digits_digits [of "CHR '';''" k] digit_not_sign [of "CHR '';''"] by blast
  then show ?thesis by (simp add: py_str_def)
qed

lemma py_str_nonempty: "py_str n \<noteq> []"
  by (simp add: py_str_def nat_digits_nonempty)

lemma py_str_hd: "\<not> py_isspace (hd (py_str n))"
proof -
  have "is_digit (hd (nat_digits k))" for k
    using nat_digits_nonempty [of k] nat_digits_digits [of "hd (nat_digits k)" k] by simp
  then have "\<not> py_isspace (hd (nat_digits k))" for k
    by (simp add: digit_not_space)
  moreover have "\<not> py_isspace CHR ''-''" by (simp add: py_isspace_def)
  ultimately show ?thesis by (simp add: py_str_def)
qed

lemma split_on_nonempty: "split_on sep s \<noteq> []"
  by (induction s) (auto split: list.splits)

lemma split_on_field:
  "sep \<notin> set a \<Longrightarrow> split_on sep (a @ sep # rest) = a # split_on sep rest"
  by (induction a) (auto split: list.splits)

lemma split_on_first:
  "hd (split_on sep s) = takeWhile (\<lambda>c. c \<noteq> sep) s"
  by (induction s) (auto split: list.splits simp: split_on_nonempty)


lemma py_strip_id:
  "s \<noteq> [] \<Longrightarrow> \<not> py_isspace (hd s) \<Longrightarrow> \<not> py_isspace (last s) \<Longrightarrow> py_strip s = s"
  unfolding py_strip_def by (rule strip_id)

lemma split_on_format_message:
  "split_on CHR '';'' (format_message n c k a t payload) =
     py_str n # py_str c # py_str k # py_str a # py_str t # split_on CHR '';'' payload"
  by (simp add: format_message_def split_on_field py_str_chars)

lemma decode_line_format_message:
  "decode_line (format_message n c k a t payload) =
     Inr \<lparr> msg_nid = n, msg_cid = c, msg_cmd = k, msg_ack = a, msg_typ = t,
           msg_val = takeWhile (\<lambda>x. x \<noteq> CHR '';'') payload \<rparr>"
proof -
  obtain p ps where sp: "split_on CHR '';'' payload = p # ps"
    using split_on_nonempty [of "CHR '';''" payload] by (cases "split_on CHR '';'' payload") auto
  from split_on_first [of "CHR '';''" payload] sp
  have p: "p = takeWhile (\<lambda>x. x \<noteq> CHR '';'') payload" by simp
  show ?thesis
    by (simp add: decode_line_def split_on_format_message sp py_int_py_str p Let_def)
qed

lemma py_strip_format_message:
  assumes "payload = [] \<or> \<not> py_isspace (last payload)"
  shows "py_strip (format_message n c k a t payload) = format_message n c k a t payload"
proof (rule py_strip_id)
  show "format_message n c k a t payload \<noteq> []"
    by (simp add: format_message_def py_str_nonempty)
  show "\<not> py_isspace (hd (format_message n c k a t payload))"
    using py_str_hd [of n] by (simp add: format_message_def py_str_nonempty)
  have "\<not> py_isspace CHR '';''" by (simp add: py_isspace_def)
  with assms show "\<not> py_isspace (last (format_message n c k a t payload))"
    by (auto simp: format_message_def)
qed

subsection \<open>Some lines, decoded\<close>

lemmas eval_line_defs =
  py_strip_def py_isspace_def decode_line_def py_int_def int_space_def is_digit_def
  digits_value_def Let_def

lemma scenario_d_decode:
  "py_strip ''5;1;1;0;2;37'' = ''5;1;1;0;2;37''"
  "decode_line ''5;1;1;0;2;37'' =
     Inr \<lparr> msg_nid = 5, msg_cid = 1, msg_cmd = 1, msg_ack = 0, msg_typ = 2, msg_val = ''37'' \<rparr>"
  by (simp_all add: eval_line_defs)

lemma bad_field_decode:
  "py_strip ''5;1;x;0;2;37'' = ''5;1;x;0;2;37''"
  "decode_line ''5;1;x;0;2;37'' = Inl Value_error"
  by (simp_all add: eval_line_defs)

lemma embedded_separator_decode:
  "py_strip ''1;2;3;0;4;a;b'' = ''1;2;3;0;4;a;b''"
  "decode_line ''1;2;3;0;4;a;b'' =
     Inr \<lparr> msg_nid = 1, msg_cid = 2, msg_cmd = 3, msg_ack = 0, msg_typ = 4, msg_val = ''a'' \<rparr>"
  by (simp_all add: eval_line_defs)

lemma format_example:
  "format_message 1 2 3 0 4 ''a;b'' = ''1;2;3;0;4;a;b''"
  "format_message 5 1 1 0 2 ''37'' = ''5;1;1;0;2;37''"
  by (simp_all add: format_message_def py_str_def nat_digits.simps char_of_def bit_0)

lemma take_five:
  "5 \<le> length xs \<Longrightarrow> take 5 xs = [xs ! 0, xs ! 1, xs ! 2, xs ! 3, xs ! 4]"
proof -
  assume "5 \<le> length xs"
  then obtain a b c d e r where "xs = a # b # c # d # e # r"
    by (cases xs; cases "tl xs"; cases "tl (tl xs)"; cases "tl (tl (tl xs))";
        cases "tl (tl (tl (tl xs)))") auto
  then show ?thesis by simp
qed

lemma decode_line_short:
  "length (split_on CHR '';'' line) < 6 \<Longrightarrow> decode_line line = Inl Too_few_fields"
  by (simp add: decode_line_def Let_def)

lemma decode_line_bad_int:
  assumes len: "6 \<le> length (split_on CHR '';'' line)"
    and bad: "None \<in> set (map py_int (take 5 (split_on CHR '';'' line)))"
  shows "decode_line line = Inl Value_error"
proof -
  let ?p = "split_on CHR '';'' line"
  from len have "take 5 ?p = [?p ! 0, ?p ! 1, ?p ! 2, ?p ! 3, ?p ! 4]"
    by (intro take_five) simp
  with bad have "py_int (?p ! 0) = None \<or> py_int (?p ! 1) = None \<or> py_int (?p ! 2) = None \<or>
      py_int (?p ! 3) = None \<or> py_int (?p ! 4) = None"
    by auto
  with len show ?thesis
    by (auto simp: decode_line_def Let_def split: option.splits)
qed

lemma short_line_decode:
  "py_strip ''0;255;3'' = ''0;255;3''"
  "split_on CHR '';'' ''0;255;3'' = [''0'', ''255'', ''3'']"
  by (simp_all add: py_strip_def py_isspace_def)

lemma bad_field_parts:
  "split_on CHR '';'' ''5;1;x;0;2;37'' = [''5'', ''1'', ''x'', ''0'', ''2'', ''37'']"
  "py_int ''x'' = None"
  by (simp_all add: py_int_def int_space_def is_digit_def Let_def)




subsection \<open>The duplicate test\<close>








subsection \<open>Malformed lines\<close>

text \<open>
  C1, as the code has it. A non-empty line that is no duplicate and has fewer than
  six fields is logged as invalid and dropped: no message is passed on and the
  listener goes on with the next line. A line of six or more fields with one of the
  first five not an integer passes no message on either, but \<open>int\<close> raises, the
  \<open>except\<close> clause prints the error and calls \<open>sys.exit(1)\<close>, and the \<open>SystemExit\<close>
  leaves the listener: the lines after it are not read.
\<close>

theorem malformed_line_outcome:
  assumes ne: "py_strip raw \<noteq> []"
    and new: "last_message st \<noteq> py_strip raw \<or> now - last_time st > 1"
  shows "(length (split_on CHR '';'' (py_strip raw)) < 6 \<longrightarrow>
            process_gateway_message st raw now =
              (\<lparr> last_message = py_strip raw, last_time = now \<rparr>, Invalid_format) \<and>
            emitted (snd (process_gateway_message st raw now)) = [] \<and>
            gateway_listener st ((raw, now) # rest) =
              (case gateway_listener \<lparr> last_message = py_strip raw, last_time = now \<rparr> rest of
                 (st', outs, running) \<Rightarrow> (st', Invalid_format # outs, running))) \<and>
         (6 \<le> length (split_on CHR '';'' (py_strip raw)) \<and>
          None \<in> set (map py_int (take 5 (split_on CHR '';'' (py_strip raw)))) \<longrightarrow>
            process_gateway_message st raw now =
              (\<lparr> last_message = py_strip raw, last_time = now \<rparr>, System_exit) \<and>
            emitted (snd (process_gateway_message st raw now)) = [] \<and>
            gateway_listener st ((raw, now) # rest) =
              (\<lparr> last_message = py_strip raw, last_time = now \<rparr>, [System_exit], False))"
proof -
  have short: "process_gateway_message st raw now =
      (\<lparr> last_message = py_strip raw, last_time = now \<rparr>, Invalid_format)"
    if "length (split_on CHR '';'' (py_strip raw)) < 6"
    using ne new decode_line_short [OF that]
    by (auto simp: process_gateway_message_def decoded_def Let_def)
  have bad: "process_gateway_message st raw now =
      (\<lparr> last_message = py_strip raw, last_time = now \<rparr>, System_exit)"
    if "6 \<le> length (split_on CHR '';'' (py_strip raw))"
      "None \<in> set (map py_int (take 5 (split_on CHR '';'' (py_strip raw))))"
    using ne new decode_line_bad_int [OF that]
    by (auto simp: process_gateway_message_def decoded_def Let_def)
  show ?thesis
    by (auto simp: short bad)
qed

theorem malformed_line_outcome_witness:
  "py_strip ''0;255;3'' \<noteq> [] \<and>
   length (split_on CHR '';'' (py_strip ''0;255;3'')) < 6 \<and>
   gateway_listener \<lparr> last_message = [], last_time = 0 \<rparr>
       [(''0;255;3'', 5), (''5;1;1;0;2;37'', 10)] =
     (\<lparr> last_message = ''5;1;1;0;2;37'', last_time = 10 \<rparr>,
      [Invalid_format,
       Dispatched \<lparr> msg_nid = 5, msg_cid = 1, msg_cmd = 1, msg_ack = 0, msg_typ = 2,
                    msg_val = ''37'' \<rparr>],
      True) \<and>
   6 \<le> length (split_on CHR '';'' (py_strip ''5;1;x;0;2;37'')) \<and>
   None \<in> set (map py_int (take 5 (split_on CHR '';'' (py_strip ''5;1;x;0;2;37'')))) \<and>
   gateway_listener \<lparr> last_message = [], last_time = 0 \<rparr>
       [(''5;1;x;0;2;37'', 5), (''5;1;1;0;2;37'', 10)] =
     (\<lparr> last_message = ''5;1;x;0;2;37'', last_time = 5 \<rparr>, [System_exit], False)"
proof -
  let ?st = "\<lparr> last_message = [], last_time = 0 \<rparr>"
  let ?rest = "[(''5;1;1;0;2;37'', 10 :: real)]"
  have a1: "py_strip ''0;255;3'' \<noteq> []" and a2: "py_strip ''5;1;x;0;2;37'' \<noteq> []"
    by (simp_all add: short_line_decode bad_field_decode)
  have n1: "last_message ?st \<noteq> py_strip ''0;255;3'' \<or> 5 - last_time ?st > 1"
    and n2: "last_message ?st \<noteq> py_strip ''5;1;x;0;2;37'' \<or> 5 - last_time ?st > 1"
    by simp_all
  have s: "length (split_on CHR '';'' (py_strip ''0;255;3'')) < 6"
    by (simp add: short_line_decode)
  have b: "6 \<le> length (split_on CHR '';'' (py_strip ''5;1;x;0;2;37''))"
    "None \<in> set (map py_int (take 5 (split_on CHR '';'' (py_strip ''5;1;x;0;2;37''))))"
    by (simp_all add: bad_field_decode bad_field_parts)
  have next_line: "gateway_listener \<lparr> last_message = ''0;255;3'', last_time = 5 \<rparr> ?rest =
      (\<lparr> last_message = ''5;1;1;0;2;37'', last_time = 10 \<rparr>,
       [Dispatched \<lparr> msg_nid = 5, msg_cid = 1, msg_cmd = 1, msg_ack = 0, msg_typ = 2,
                     msg_val = ''37'' \<rparr>], True)"
    by (simp add: process_gateway_message_def decoded_def scenario_d_decode)
  from malformed_line_outcome [OF a1 n1, of "?rest"] s
  have r1: "gateway_listener ?st ((''0;255;3'', 5) # ?rest) =
      (case gateway_listener \<lparr> last_message = py_strip ''0;255;3'', last_time = 5 \<rparr> ?rest of
         (st', outs, running) \<Rightarrow> (st', Invalid_format # outs, running))"
    by blast
  from malformed_line_outcome [OF a2 n2, of "?rest"] b
  have r2: "gateway_listener ?st ((''5;1;x;0;2;37'', 5) # ?rest) =
      (\<lparr> last_message = py_strip ''5;1;x;0;2;37'', last_time = 5 \<rparr>, [System_exit], False)"
    by blast
  from r1 have r1': "gateway_listener ?st ((''0;255;3'', 5) # ?rest) =
      (\<lparr> last_message = ''5;1;1;0;2;37'', last_time = 10 \<rparr>,
       [Invalid_format,
        Dispatched \<lparr> msg_nid = 5, msg_cid = 1, msg_cmd = 1, msg_ack = 0, msg_typ = 2,
                     msg_val = ''37'' \<rparr>], True)"
    by (simp only: short_line_decode next_line prod.case)
  from r2 have r2': "gateway_listener ?st ((''5;1;x;0;2;37'', 5) # ?rest) =
      (\<lparr> last_message = ''5;1;x;0;2;37'', last_time = 5 \<rparr>, [System_exit], False)"
    by (simp only: bad_field_decode)
  from a1 s b r1' r2' show ?thesis by blast
qed

text \<open>
  C1 as stated fails: the third field of the line is no integer; the call ends in
  \<open>SystemExit\<close> and the listener stops before the well-formed line that follows.
\<close>

theorem malformed_line_counterexample:
  "process_gateway_message \<lparr> last_message = [], last_time = 0 \<rparr> ''5;1;x;0;2;37'' 5 =
     (\<lparr> last_message = ''5;1;x;0;2;37'', last_time = 5 \<rparr>, System_exit) \<and>
   gateway_listener \<lparr> last_message = [], last_time = 0 \<rparr>
       [(''5;1;x;0;2;37'', 5), (''5;1;1;0;2;37'', 10)] =
     (\<lparr> last_message = ''5;1;x;0;2;37'', last_time = 5 \<rparr>, [System_exit], False)"
  by (simp add: process_gateway_message_def decoded_def bad_field_decode)

subsection \<open>Formatting and decoding\<close>

lemma py_strip_tail: "py_strip s = [] \<or> \<not> py_isspace (last (py_strip s))"
proof (cases "dropWhile py_isspace (rev (dropWhile py_isspace s))")
  case Nil
  then show ?thesis by (simp add: py_strip_def)
next
  case (Cons c cs)
  have "\<not> py_isspace (hd (dropWhile py_isspace (rev (dropWhile py_isspace s))))"
    using Cons hd_dropWhile [of py_isspace "rev (dropWhile py_isspace s)"] by simp
  with Cons show ?thesis by (simp add: py_strip_def)
qed

lemma process_format_message:
  assumes tail: "payload = [] \<or> \<not> py_isspace (last payload)"
    and new: "last_message st \<noteq> format_message n c k a t payload \<or> now - last_time st > 1"
  shows "snd (process_gateway_message st (format_message n c k a t payload) now) =
           Dispatched \<lparr> msg_nid = n, msg_cid = c, msg_cmd = k, msg_ack = a, msg_typ = t,
                        msg_val = takeWhile (\<lambda>x. x \<noteq> CHR '';'') payload \<rparr>"
proof -
  have ne: "format_message n c k a t payload \<noteq> []"
    by (simp add: format_message_def py_str_nonempty)
  show ?thesis
    using new ne
    by (auto simp: process_gateway_message_def decoded_def py_strip_format_message [OF tail]
        decode_line_format_message Let_def)
qed

lemma send_custom_message_decoded:
  assumes sent: "send_custom_message n c k a t raw_payload = Some line"
    and new: "last_message st \<noteq> line \<or> now - last_time st > 1"
  shows "snd (process_gateway_message st line now) =
           Dispatched \<lparr> msg_nid = n, msg_cid = c, msg_cmd = k, msg_ack = a, msg_typ = t,
                        msg_val = takeWhile (\<lambda>x. x \<noteq> CHR '';'') (py_strip raw_payload) \<rparr>"
proof -
  from sent have l: "line = format_message n c k a t (py_strip raw_payload)"
    by (auto simp: send_custom_message_def Let_def split: if_splits)
  from new show ?thesis
    unfolding l by (intro process_format_message py_strip_tail)
qed

text \<open>
  C4, as the code has it. A line formatted from five integers and a payload that
  does not end in white space, and that is no duplicate, is decoded to the same five
  integers, and to the payload up to its first \<open>;\<close>: the line is split at every
  \<open>;\<close> and the sixth field is taken. So a payload without \<open>;\<close> comes back
  exactly, and one with \<open>;\<close> is cut there. (The line is stripped before it is
  split, which is why the payload must not end in white space; the sender strips
  the payload it is given.)
\<close>

theorem decode_format_message:
  assumes tail: "payload = [] \<or> \<not> py_isspace (last payload)"
    and new: "last_message st \<noteq> format_message n c k a t payload \<or> now - last_time st > 1"
  shows "snd (process_gateway_message st (format_message n c k a t payload) now) =
           Dispatched \<lparr> msg_nid = n, msg_cid = c, msg_cmd = k, msg_ack = a, msg_typ = t,
                        msg_val = takeWhile (\<lambda>x. x \<noteq> CHR '';'') payload \<rparr> \<and>
         (CHR '';'' \<notin> set payload \<longrightarrow>
            snd (process_gateway_message st (format_message n c k a t payload) now) =
              Dispatched \<lparr> msg_nid = n, msg_cid = c, msg_cmd = k, msg_ack = a, msg_typ = t,
                           msg_val = payload \<rparr>)"
proof -
  have r: "snd (process_gateway_message st (format_message n c k a t payload) now) =
           Dispatched \<lparr> msg_nid = n, msg_cid = c, msg_cmd = k, msg_ack = a, msg_typ = t,
                        msg_val = takeWhile (\<lambda>x. x \<noteq> CHR '';'') payload \<rparr>"
    using tail new by (rule process_format_message)
  have "CHR '';'' \<notin> set payload \<Longrightarrow> takeWhile (\<lambda>x. x \<noteq> CHR '';'') payload = payload"
    by (rule takeWhile_eq_all_conv [THEN iffD2]) auto
  with r show ?thesis by simp
qed

theorem decode_format_message_witness:
  "\<not> py_isspace (last ''37'') \<and>
   5 - last_time \<lparr> last_message = [], last_time = 0 \<rparr> > 1 \<and>
   CHR '';'' \<notin> set ''37'' \<and>
   snd (process_gateway_message \<lparr> last_message = [], last_time = 0 \<rparr>
          (format_message 5 1 1 0 2 ''37'') 5) =
     Dispatched \<lparr> msg_nid = 5, msg_cid = 1, msg_cmd = 1, msg_ack = 0, msg_typ = 2, msg_val = ''37'' \<rparr>"
proof -
  have a: "\<not> py_isspace (last ''37'')"
    by (simp add: py_isspace_def)
  have b: "5 - last_time \<lparr> last_message = [], last_time = 0 \<rparr> > 1"
    by simp
  have c: "CHR '';'' \<notin> set ''37''" by simp
  from a have a': "''37'' = [] \<or> \<not> py_isspace (last ''37'')" by (rule disjI2)
  from b have b': "last_message \<lparr> last_message = [], last_time = 0 \<rparr> \<noteq> format_message 5 1 1 0 2 ''37''
      \<or> 5 - last_time \<lparr> last_message = [], last_time = 0 \<rparr> > 1"
    by (rule disjI2)
  from decode_format_message [OF a' b'] a b c show ?thesis by blast
qed

text \<open>
  C4 as stated fails: the payload \<open>a;b\<close> after the fifth \<open>;\<close> is decoded as
  \<open>a\<close>.
\<close>

theorem embedded_separator_counterexample:
  "format_message 1 2 3 0 4 ''a;b'' = ''1;2;3;0;4;a;b'' \<and>
   snd (process_gateway_message \<lparr> last_message = [], last_time = 0 \<rparr> ''1;2;3;0;4;a;b'' 5) =
     Dispatched \<lparr> msg_nid = 1, msg_cid = 2, msg_cmd = 3, msg_ack = 0, msg_typ = 4, msg_val = ''a'' \<rparr>"
  by (simp add: format_example process_gateway_message_def decoded_def embedded_separator_decode)

end
